theory Spec2Isabelle
  imports Complex_Main "HOL-Library.Log_Nat" "HOL-Library.Sublist"
begin

section \<open>Numbers: Decimal and float\<close>

text \<open>
  The billing code computes with two Python number types. \<^verbatim>\<open>decimal.Decimal\<close> is exact
  decimal arithmetic; a Decimal is modelled by the rational number it denotes. The model
  stays inside the default context precision of 28 significant digits, where addition,
  subtraction, multiplication and comparison of Decimals are exact. \<^verbatim>\<open>float\<close> is IEEE 754
  binary64; a finite float is modelled by the rational number it denotes, and every
  operation that produces a float rounds to the nearest number with a 53-bit significand,
  ties to even. Overflow to infinity and subnormal numbers are outside the model.

  The text columns \<^verbatim>\<open>wallet\<close> and \<^verbatim>\<open>sms_cost\<close> hold numerals. A column is modelled by the
  value of its numeral, \<open>None\<close> standing for NULL or the empty text (both falsy, so that
  \<^verbatim>\<open>user.wallet or "0.0"\<close> takes the default).
\<close>

definition round_half_even :: "rat \<Rightarrow> int" where
  "round_half_even x =
     (let f = \<lfloor>x\<rfloor>; r = x - of_int f in
      if r < 1 / 2 then f
      else if 1 / 2 < r then f + 1
      else if even f then f else f + 1)"

text \<open>\<^verbatim>\<open>d.quantize(Decimal("0.01"))\<close> under the default rounding ROUND_HALF_EVEN, for
  \<open>places = 2\<close>.\<close>

definition quantize :: "rat \<Rightarrow> nat \<Rightarrow> rat" where
  "quantize d places = of_int (round_half_even (d * 10 ^ places)) / 10 ^ places"

text \<open>A Decimal (or the text of one) with at most \<open>places\<close> digits after the point.\<close>

definition decimal_places :: "nat \<Rightarrow> rat \<Rightarrow> bool" where
  "decimal_places places d = (d * 10 ^ places = of_int \<lfloor>d * 10 ^ places\<rfloor>)"

text \<open>The binary exponent \<open>e\<close> of a non-zero number: \<open>2 ^ e \<le> \<bar>x\<bar> < 2 ^ (e + 1)\<close>.\<close>

definition binary_exponent :: "rat \<Rightarrow> int" where
  "binary_exponent x =
     (let (p, q) = quotient_of \<bar>x\<bar>; k = bitlen p - bitlen q in
      if q * 2 ^ nat k \<le> p * 2 ^ nat (- k) then k else k - 1)"

text \<open>\<^verbatim>\<open>float(x)\<close>: the binary64 number nearest to \<open>x\<close>.\<close>

definition py_float :: "rat \<Rightarrow> rat" where
  "py_float x =
     (if x = 0 then 0
      else let u = 2 powi (binary_exponent x - 52)
           in of_int (round_half_even (x / u)) * u)"


text \<open>The number of decimal digits of a positive integer, and the decimal exponent
  \<open>e\<close> of a non-zero number: \<open>10 ^ e \<le> \<bar>x\<bar> < 10 ^ (e + 1)\<close>.\<close>

function declen :: "int \<Rightarrow> int" where
  "declen a = (if 0 < a then declen (a div 10) + 1 else 0)"
  by pat_completeness auto
termination
  by (relation "measure nat") auto

declare declen.simps [simp del]

definition decimal_exponent :: "rat \<Rightarrow> int" where
  "decimal_exponent x =
     (let (p, q) = quotient_of \<bar>x\<bar>; k = declen p - declen q in
      if q * 10 ^ nat k \<le> p * 10 ^ nat (- k) then k else k - 1)"

text \<open>
  \<^verbatim>\<open>str(x)\<close> of a float is the shortest decimal numeral that reads back as the same float,
  the nearest to \<open>x\<close> when several of that length do. \<open>shortest_at x n\<close> looks for such
  a numeral with \<open>n\<close> significant digits among the two neighbours of \<open>x\<close>;
  \<open>float_str\<close> tries 1 to 17 digits (17 always suffice for a binary64 number) and gives
  the value of the numeral.
\<close>

definition shortest_at :: "rat \<Rightarrow> nat \<Rightarrow> rat option" where
  "shortest_at x n =
     (let u = 10 powi (decimal_exponent x - int n + 1);
          lo = of_int \<lfloor>x / u\<rfloor> * u;
          hi = of_int \<lceil>x / u\<rceil> * u;
          ok_lo = (py_float lo = x);
          ok_hi = (py_float hi = x)
      in if ok_lo \<and> ok_hi then
           Some (if x - lo < hi - x then lo
                 else if hi - x < x - lo then hi
                 else if even \<lfloor>x / u\<rfloor> then lo else hi)
         else if ok_lo then Some lo
         else if ok_hi then Some hi
         else None)"

fun float_str_from :: "rat \<Rightarrow> nat \<Rightarrow> nat \<Rightarrow> rat" where
  "float_str_from x n 0 = x"
| "float_str_from x n (Suc k) =
     (case shortest_at x n of
        Some c \<Rightarrow> c
      | None \<Rightarrow> float_str_from x (Suc n) k)"

definition float_str :: "rat \<Rightarrow> rat" where
  "float_str x = (if x = 0 then 0 else float_str_from x 1 17)"

section \<open>Data model (app/models.py)\<close>

type_synonym uuid = nat
type_synonym datetime = nat

text \<open>Of each table the columns that the billing, dispatch and delivery-report code
  reads or writes. Primary keys of rows the code only appends (uuid4 defaults) and the
  default timestamps \<^verbatim>\<open>created_at\<close>, \<^verbatim>\<open>updated_at\<close> are left out; a table is the list of
  its rows in insertion order. A text is the list of its characters. The \<^verbatim>\<open>max_length\<close> of
  a text column, which a database engine may or may not enforce, is not modelled.\<close>

record User =
  uid :: uuid
  wallet :: "rat option"
  sms_cost :: "rat option"

record Template =
  owner_id :: uuid
  content :: string

record Transaction =
  user_id :: uuid
  transaction_type :: string
  amount :: rat
  currency :: string
  description :: "string option"
  status :: string
  payment_method :: "string option"
  balance_before :: "rat option"
  balance_after :: "rat option"

record SmsHistory =
  h_user_id :: uuid
  recipient :: string
  h_message :: string
  h_status :: string
  sms_count :: nat
  h_cost :: rat
  external_id :: "string option"
  h_template_id :: "uuid option"
  sent_at :: "datetime option"
  delivered_at :: "datetime option"
  error_message :: "string option"

text \<open>\<^verbatim>\<open>User.wallet\<close> defaults to \<^verbatim>\<open>"10.0"\<close> and \<^verbatim>\<open>User.sms_cost\<close> to \<^verbatim>\<open>"32"\<close>: the row of
  an account as it is created, before any ledger entry exists.\<close>

definition new_user :: "uuid \<Rightarrow> User" where
  "new_user i = \<lparr>uid = i, wallet = Some 10, sms_cost = Some 32\<rparr>"

record db =
  users :: "uuid \<rightharpoonup> User"
  templates :: "uuid \<rightharpoonup> Template"
  transactions :: "Transaction list"
  smshistory :: "SmsHistory list"

text \<open>
  A SQLAlchemy session: \<open>committed\<close> is what the database holds, \<open>pending\<close> is the
  session's view, the committed rows and the changes added since the last commit.
  \<^verbatim>\<open>commit()\<close> makes the view durable and \<^verbatim>\<open>rollback()\<close> discards the changes added since
  the last commit.
\<close>

record session =
  committed :: db
  pending :: db

definition open_session :: "db \<Rightarrow> session" where
  "open_session d = \<lparr>committed = d, pending = d\<rparr>"

definition commit :: "session \<Rightarrow> session" where
  "commit s = s\<lparr>committed := pending s\<rparr>"

definition rollback :: "session \<Rightarrow> session" where
  "rollback s = s\<lparr>pending := committed s\<rparr>"

definition add_user :: "User \<Rightarrow> session \<Rightarrow> session" where
  "add_user u s = s\<lparr>pending := (pending s)\<lparr>users := (users (pending s))(uid u \<mapsto> u)\<rparr>\<rparr>"

definition add_transaction :: "Transaction \<Rightarrow> session \<Rightarrow> session" where
  "add_transaction t s =
     s\<lparr>pending := (pending s)\<lparr>transactions := transactions (pending s) @ [t]\<rparr>\<rparr>"

definition add_history :: "SmsHistory \<Rightarrow> session \<Rightarrow> session" where
  "add_history h s =
     s\<lparr>pending := (pending s)\<lparr>smshistory := smshistory (pending s) @ [h]\<rparr>\<rparr>"

section \<open>Rate calculation (app/api/routes/smssend.py, send_sms)\<close>

text \<open>\<^verbatim>\<open>sms_units = (msg_len // 153) + (1 if msg_len % 153 else 0) if msg_len > 160 else 1\<close>\<close>

definition sms_units :: "nat \<Rightarrow> nat" where
  "sms_units msg_len =
     (if msg_len > 160 then msg_len div 153 + (if msg_len mod 153 \<noteq> 0 then 1 else 0)
      else 1)"

text \<open>\<^verbatim>\<open>cost_per_sms = Decimal(current_user.sms_cost or "32")\<close>\<close>

definition cost_per_sms :: "User \<Rightarrow> rat" where
  "cost_per_sms current_user = (case sms_cost current_user of None \<Rightarrow> 32 | Some c \<Rightarrow> c)"

text \<open>\<^verbatim>\<open>total_cost = cost_per_sms * sms_units * recipients_count\<close>\<close>

definition total_cost :: "User \<Rightarrow> nat \<Rightarrow> nat \<Rightarrow> rat" where
  "total_cost current_user msg_len recipients_count =
     cost_per_sms current_user * of_nat (sms_units msg_len) * of_nat recipients_count"

section \<open>Errors\<close>

text \<open>
  An exception is a value. \<open>HTTPException\<close> is FastAPI's, with its status code;
  \<open>Unhandled\<close> is any other exception that leaves a handler (the framework answers 500).
  \<open>exn\<close> lists the exceptions the code meets below FastAPI: a failed call of the
  provider, \<^verbatim>\<open>decimal.InvalidOperation\<close> from \<^verbatim>\<open>Decimal(text)\<close>, and \<^verbatim>\<open>AttributeError\<close> from a
  method call on \<^verbatim>\<open>None\<close>.
\<close>

datatype exn = GatewayError string | InvalidOperation | AttributeError

datatype detail =
    Template_not_found
  | User_not_found
  | Insufficient_funds rat rat
  | SMS_gateway_failed exn

datatype failure = HTTPException (status_code: nat) (detail: detail) | Unhandled exn

section \<open>Strings\<close>

text \<open>\<^verbatim>\<open>str.lower()\<close> on ASCII text, \<^verbatim>\<open>sub in s\<close>, \<^verbatim>\<open>str(n)\<close> of a natural number, and
  \<^verbatim>\<open>a or b\<close> on optional texts (\<^verbatim>\<open>None\<close> and the empty text are falsy).\<close>

definition lower_char :: "char \<Rightarrow> char" where
  "lower_char c =
     (let n = (of_char c :: nat) in if 65 \<le> n \<and> n \<le> 90 then char_of (n + 32) else c)"

definition lower :: "string \<Rightarrow> string" where
  "lower s = map lower_char s"

fun str_contains :: "string \<Rightarrow> string \<Rightarrow> bool" where
  "str_contains sub [] = (sub = [])"
| "str_contains sub (c # cs) = (prefix sub (c # cs) \<or> str_contains sub cs)"

fun str_nat :: "nat \<Rightarrow> string" where
  "str_nat n =
     (if n < 10 then [char_of (48 + n)]
      else str_nat (n div 10) @ [char_of (48 + n mod 10)])"

declare str_nat.simps [simp del]

definition truthy :: "string option \<Rightarrow> bool" where
  "truthy t = (case t of None \<Rightarrow> False | Some x \<Rightarrow> x \<noteq> [])"

section \<open>Live notification (ConnectionManager)\<close>

type_synonym websocket = nat

text \<open>A message handed to \<^verbatim>\<open>broadcast\<close>: the two dictionaries the handlers build.\<close>

datatype event =
    sms_batch_sent uuid string nat rat datetime
  | delivery_update "string option" "string option" "string option" "string option"

text \<open>\<^verbatim>\<open>active_connections\<close> is a Python set: a list without repetitions, in the order the
  \<^verbatim>\<open>for\<close> loop visits it.\<close>

record ConnectionManager =
  active_connections :: "websocket list"

definition connect :: "websocket \<Rightarrow> ConnectionManager \<Rightarrow> ConnectionManager" where
  "connect w m = m\<lparr>active_connections := List.insert w (active_connections m)\<rparr>"

definition disconnect :: "websocket \<Rightarrow> ConnectionManager \<Rightarrow> ConnectionManager" where
  "disconnect w m = m\<lparr>active_connections := removeAll w (active_connections m)\<rparr>"

section \<open>The world outside\<close>

text \<open>
  \<open>recipient\<close> is one entry of the provider's \<^verbatim>\<open>Recipients\<close> list. \<open>r_cost\<close> is the
  value of \<^verbatim>\<open>Decimal(r["cost"].replace("UGX ", "").strip())\<close>, \<open>None\<close> when the text is
  no numeral (\<^verbatim>\<open>Decimal\<close> raises \<^verbatim>\<open>InvalidOperation\<close>).
\<close>

record recipient =
  number :: string
  r_status :: string
  statusCode :: int
  r_cost :: "rat option"
  messageId :: "string option"

record sms_response =
  Message :: string
  Recipients :: "recipient list"

text \<open>The arguments of \<^verbatim>\<open>sms.send\<close>: message, recipients, sender id, enqueue.\<close>

type_synonym gateway_call = "string \<times> string list \<times> string \<times> nat"

text \<open>
  What a handler cannot decide: the provider's answer to a call (\<open>Inl\<close> when
  \<^verbatim>\<open>sms.send\<close> raises), whether \<^verbatim>\<open>send_text\<close> to an observer succeeds (\<open>False\<close> when it
  raises), the environment variable \<^verbatim>\<open>AT_SENDER_ID\<close> and the clock.
\<close>

record env =
  sms_send :: "gateway_call \<Rightarrow> exn + sms_response"
  send_text :: "websocket \<Rightarrow> event \<Rightarrow> bool"
  at_sender_id :: "string option"
  utcnow :: datetime

text \<open>
  The application between requests: the database, the module-level \<^verbatim>\<open>manager\<close>, and two
  logs of effects on the outside, the \<^verbatim>\<open>send_text\<close> calls made to observers (with their
  outcome) and the calls made to the provider.
\<close>

record app =
  database :: db
  manager :: ConnectionManager
  sent_texts :: "(websocket \<times> event \<times> bool) list"
  gateway_calls :: "gateway_call list"

text \<open>The loop of \<^verbatim>\<open>broadcast\<close>, with its local set \<^verbatim>\<open>disconnected\<close>; the bare \<^verbatim>\<open>except\<close>
  catches whatever \<^verbatim>\<open>send_text\<close> raises.\<close>

fun broadcast_loop ::
  "env \<Rightarrow> event \<Rightarrow> websocket list \<Rightarrow> websocket list \<Rightarrow> (websocket \<times> event \<times> bool) list
     \<Rightarrow> websocket list \<times> (websocket \<times> event \<times> bool) list" where
  "broadcast_loop e message [] disconnected sent = (disconnected, sent)"
| "broadcast_loop e message (conn # conns) disconnected sent =
     (if send_text e conn message
      then broadcast_loop e message conns disconnected (sent @ [(conn, message, True)])
      else broadcast_loop e message conns (List.insert conn disconnected)
             (sent @ [(conn, message, False)]))"

definition broadcast :: "env \<Rightarrow> event \<Rightarrow> app \<Rightarrow> app" where
  "broadcast e message a =
     (let (disconnected, sent) =
            broadcast_loop e message (active_connections (manager a)) [] (sent_texts a)
      in a\<lparr>manager := (manager a)\<lparr>active_connections :=
                filter (\<lambda>c. c \<notin> set disconnected) (active_connections (manager a))\<rparr>,
           sent_texts := sent\<rparr>)"

section \<open>Ledger\<close>

subsection \<open>Debit (app/api/routes/smssend.py, deduct_and_log_wallet)\<close>

text \<open>\<^verbatim>\<open>Decimal(user.wallet or "0.0")\<close>\<close>

definition balance :: "User \<Rightarrow> rat" where
  "balance user = (case wallet user of None \<Rightarrow> 0 | Some w \<Rightarrow> w)"

text \<open>The ledger entry that the debit logs (\<^verbatim>\<open>transaction = Transaction(...)\<close>); the
  three amounts are converted with \<^verbatim>\<open>float(...)\<close>.\<close>

definition debit_transaction :: "User \<Rightarrow> rat \<Rightarrow> string \<Rightarrow> Transaction" where
  "debit_transaction user tcost descr =
     \<lparr>user_id = uid user, transaction_type = ''debit'', amount = py_float tcost,
      currency = ''UGX'', description = Some descr, status = ''completed'',
      payment_method = None,
      balance_before = Some (py_float (balance user)),
      balance_after = Some (py_float (balance user - tcost))\<rparr>"

definition deduct_and_log_wallet ::
  "session \<Rightarrow> User \<Rightarrow> rat \<Rightarrow> string \<Rightarrow> failure + session \<times> User" where
  "deduct_and_log_wallet s user tcost descr =
     (let current_balance = balance user in
      if current_balance < tcost
      then Inl (HTTPException 400 (Insufficient_funds current_balance tcost))
      else
        let new_balance = current_balance - tcost;
            user' = user\<lparr>wallet := Some (quantize new_balance 2)\<rparr>;
            transaction = debit_transaction user tcost descr
        in Inr (commit (add_user user' (add_transaction transaction s)), user'))"

subsection \<open>Credit (app/api/routes/adminpre.py, add_balance_to_user)\<close>




section \<open>Dispatch (app/api/routes/smssend.py, send_sms)\<close>

record SendSMSRequest =
  to :: "string list"
  message :: string
  from_field :: "string option"
  template_id :: "uuid option"
  enqueue :: bool

record SendSMSResponse =
  batch_id :: "string option"
  summary :: string
  total_sent :: nat
  total_cost_ugx :: rat
  recipients :: "recipient list"

text \<open>The message to send: the payload's, or the content of the caller's template.\<close>

definition resolve_message :: "session \<Rightarrow> SendSMSRequest \<Rightarrow> User \<Rightarrow> failure + string" where
  "resolve_message s payload current_user =
     (case template_id payload of
        None \<Rightarrow> Inr (message payload)
      | Some tid \<Rightarrow>
          (case templates (pending s) tid of
             None \<Rightarrow> Inl (HTTPException 404 Template_not_found)
           | Some template \<Rightarrow>
               if owner_id template \<noteq> uid current_user
               then Inl (HTTPException 404 Template_not_found)
               else Inr (content template)))"

text \<open>\<^verbatim>\<open>sender = payload.from_ or at_sender_id or "ATUpdates"\<close>\<close>

definition sender_of :: "env \<Rightarrow> SendSMSRequest \<Rightarrow> string" where
  "sender_of e payload =
     (if truthy (from_field payload) then the (from_field payload)
      else if truthy (at_sender_id e) then the (at_sender_id e)
      else ''ATUpdates'')"

text \<open>The row built for one entry of \<^verbatim>\<open>recipients_data\<close>, and the loop that adds one
  row for each entry; the loop stops at the first cost that \<^verbatim>\<open>Decimal\<close> rejects.\<close>

definition history_row ::
  "env \<Rightarrow> uuid \<Rightarrow> string \<Rightarrow> nat \<Rightarrow> uuid option \<Rightarrow> recipient \<Rightarrow> rat \<Rightarrow> SmsHistory" where
  "history_row e current_user_id final_message units tid r cost =
     \<lparr>h_user_id = current_user_id, recipient = number r,
      h_message = final_message, h_status = lower (r_status r),
      sms_count = units, h_cost = py_float cost, external_id = messageId r,
      h_template_id = tid, sent_at = Some (utcnow e), delivered_at = None,
      error_message = None\<rparr>"

fun log_history ::
  "env \<Rightarrow> User \<Rightarrow> string \<Rightarrow> nat \<Rightarrow> uuid option \<Rightarrow> recipient list \<Rightarrow> session \<Rightarrow> exn + session"
  where
  "log_history e current_user final_message units tid [] s = Inr s"
| "log_history e current_user final_message units tid (r # rs) s =
     (case r_cost r of
        None \<Rightarrow> Inl InvalidOperation
      | Some cost \<Rightarrow>
          log_history e current_user final_message units tid rs
            (add_history (history_row e (uid current_user) final_message units tid r cost) s))"

text \<open>The description of the debit, \<^verbatim>\<open>f"SMS to {recipients_count} recipients"\<close>, and the
  arguments of the call to the provider.\<close>

definition send_descr :: "SendSMSRequest \<Rightarrow> string" where
  "send_descr payload = ''SMS to '' @ str_nat (length (to payload)) @ '' recipients''"

definition gateway_call_of :: "env \<Rightarrow> SendSMSRequest \<Rightarrow> string \<Rightarrow> gateway_call" where
  "gateway_call_of e payload final_message =
     (final_message, to payload, sender_of e payload, if enqueue payload then 1 else 0)"

text \<open>
  The handler. The session is opened on the database for the request and closed when the
  handler leaves, so the application keeps what was committed. The \<^verbatim>\<open>except\<close> clause
  answers every exception of the \<^verbatim>\<open>try\<close> block with \<^verbatim>\<open>session.rollback()\<close> and 502.
\<close>

definition send_sms ::
  "env \<Rightarrow> SendSMSRequest \<Rightarrow> User \<Rightarrow> app \<Rightarrow> (failure + SendSMSResponse) \<times> app" where
  "send_sms e payload current_user a =
     (let s = open_session (database a) in
      case resolve_message s payload current_user of
        Inl err \<Rightarrow> (Inl err, a)
      | Inr final_message \<Rightarrow>
          let msg_len = length final_message;
              units = sms_units msg_len;
              recipients_count = length (to payload);
              tcost = total_cost current_user msg_len recipients_count
          in
          (case deduct_and_log_wallet s current_user tcost (send_descr payload) of
             Inl err \<Rightarrow> (Inl err, a)
           | Inr (s1, user1) \<Rightarrow>
               let call = gateway_call_of e payload final_message;
                   a1 = a\<lparr>database := committed s1, gateway_calls := gateway_calls a @ [call]\<rparr>
               in
               (case sms_send e call of
                  Inl ex \<Rightarrow>
                    (Inl (HTTPException 502 (SMS_gateway_failed ex)),
                     a1\<lparr>database := committed (rollback s1)\<rparr>)
                | Inr data \<Rightarrow>
                    (case log_history e user1 final_message units (template_id payload)
                            (Recipients data) s1 of
                       Inl ex \<Rightarrow>
                         (Inl (HTTPException 502 (SMS_gateway_failed ex)),
                          a1\<lparr>database := committed (rollback s1)\<rparr>)
                     | Inr s2 \<Rightarrow>
                         let a2 = broadcast e
                                    (sms_batch_sent (uid user1) (Message data)
                                       (length (Recipients data)) tcost (utcnow e))
                                    (a1\<lparr>database := committed (commit s2)\<rparr>)
                         in (Inr \<lparr>batch_id = None, summary = Message data,
                                  total_sent = length (Recipients data),
                                  total_cost_ugx = tcost,
                                  recipients = Recipients data\<rparr>, a2)))))"

section \<open>Delivery reports (app/api/routes/smssend.py, delivery_report_webhook)\<close>

text \<open>The callback's body, a JSON object; the four keys the handler reads with
  \<^verbatim>\<open>report.get\<close>, each a text or absent.\<close>

record report =
  phoneNumber :: "string option"
  rep_status :: "string option"
  rep_id :: "string option"
  failureReason :: "string option"

datatype ack = received

text \<open>\<^verbatim>\<open>select(SmsHistory).where(SmsHistory.external_id == message_id).first()\<close>: the place
  of the first matching row, in the order of the table (the query has no \<^verbatim>\<open>ORDER BY\<close>).
  SQLAlchemy compiles the comparison with \<^verbatim>\<open>None\<close> to \<^verbatim>\<open>IS NULL\<close>, so an absent id matches
  the rows without an external id.\<close>

fun first_index :: "('a \<Rightarrow> bool) \<Rightarrow> 'a list \<Rightarrow> nat option" where
  "first_index P [] = None"
| "first_index P (x # xs) = (if P x then Some 0 else map_option Suc (first_index P xs))"

definition find_history :: "string option \<Rightarrow> session \<Rightarrow> nat option" where
  "find_history message_id s =
     first_index (\<lambda>h. external_id h = message_id) (smshistory (pending s))"

text \<open>The three assignments to the row found, for a status text \<open>st\<close>, and the
  message broadcast afterwards.\<close>

definition reconciled :: "env \<Rightarrow> report \<Rightarrow> string \<Rightarrow> SmsHistory \<Rightarrow> SmsHistory" where
  "reconciled e rep st history =
     history\<lparr>h_status := lower st, error_message := failureReason rep,
       delivered_at := (if str_contains ''Delivered'' st then Some (utcnow e) else None)\<rparr>"

definition event_of_report :: "report \<Rightarrow> event" where
  "event_of_report rep =
     delivery_update (phoneNumber rep) (rep_status rep) (rep_id rep) (failureReason rep)"

text \<open>The handler. With a row found and no \<^verbatim>\<open>status\<close> key in the report,
  \<^verbatim>\<open>status.lower()\<close> raises before anything is written.\<close>

definition delivery_report_webhook :: "env \<Rightarrow> report \<Rightarrow> app \<Rightarrow> (failure + ack) \<times> app" where
  "delivery_report_webhook e rep a =
     (let s = open_session (database a);
          status' = rep_status rep;
          message_id = rep_id rep
      in
      case find_history message_id s of
        None \<Rightarrow> (Inr received, broadcast e (event_of_report rep) a)
      | Some i \<Rightarrow>
          (case status' of
             None \<Rightarrow> (Inl (Unhandled AttributeError), a)
           | Some st \<Rightarrow>
               let history = smshistory (pending s) ! i;
                   s1 = commit
                          (s\<lparr>pending := (pending s)\<lparr>smshistory :=
                                (smshistory (pending s))[i := reconciled e rep st history]\<rparr>\<rparr>)
               in (Inr received,
                   broadcast e (event_of_report rep) (a\<lparr>database := committed s1\<rparr>))))"

section \<open>The database after a debit\<close>

text \<open>What \<^verbatim>\<open>deduct_and_log_wallet\<close> commits when it succeeds: the user's row with the new
  wallet and one more ledger entry.\<close>

definition debited :: "db \<Rightarrow> User \<Rightarrow> rat \<Rightarrow> string \<Rightarrow> db" where
  "debited d user tcost descr =
     d\<lparr>users := (users d)(uid user \<mapsto>
                 user\<lparr>wallet := Some (quantize (balance user - tcost) 2)\<rparr>),
       transactions := transactions d @ [debit_transaction user tcost descr]\<rparr>"

section \<open>Example data\<close>

text \<open>An account with 100.00 in its wallet at the default price of 32, a request for one
  short message to one recipient, an application with two observers connected, and
  an environment in which the provider is unreachable.\<close>

definition ex_user :: User where
  "ex_user = \<lparr>uid = 1, wallet = Some 100, sms_cost = Some 32\<rparr>"

definition ex_db :: db where
  "ex_db = \<lparr>users = [1 \<mapsto> ex_user], templates = Map.empty, transactions = [],
      smshistory = []\<rparr>"

definition ex_app :: app where
  "ex_app = \<lparr>database = ex_db, manager = \<lparr>active_connections = [1, 2]\<rparr>,
      sent_texts = [], gateway_calls = []\<rparr>"

definition ex_payload :: SendSMSRequest where
  "ex_payload = \<lparr>to = [''+256700000001''], message = ''hi'', from_field = None,
      template_id = None, enqueue = True\<rparr>"

definition gateway_down :: env where
  "gateway_down = \<lparr>sms_send = (\<lambda>c. Inl (GatewayError ''timeout'')),
      send_text = (\<lambda>w m. True), at_sender_id = None, utcnow = 7\<rparr>"





text \<open>An application whose history holds one row, sent to the provider under the id
  \<^verbatim>\<open>ATXid_1\<close> and recorded as delivered at time 5; a delivery report for that id with the
  status \<^verbatim>\<open>Failed\<close>, one with the status \<^verbatim>\<open>Delivered\<close>, and one for an id that was never
  recorded.\<close>

definition ex_row :: SmsHistory where
  "ex_row = \<lparr>h_user_id = 1, recipient = ''+256700000001'', h_message = ''hi'',
      h_status = ''delivered'', sms_count = 1, h_cost = 32, external_id = Some ''ATXid_1'',
      h_template_id = None, sent_at = Some 3, delivered_at = Some 5, error_message = None\<rparr>"

definition ex_sent :: app where
  "ex_sent = ex_app\<lparr>database := ex_db\<lparr>smshistory := [ex_row]\<rparr>\<rparr>"

definition report_failed :: report where
  "report_failed = \<lparr>phoneNumber = Some ''+256700000001'', rep_status = Some ''Failed'',
      rep_id = Some ''ATXid_1'', failureReason = Some ''DeliveryFailure''\<rparr>"

definition report_delivered :: report where
  "report_delivered = \<lparr>phoneNumber = Some ''+256700000001'', rep_status = Some ''Delivered'',
      rep_id = Some ''ATXid_1'', failureReason = None\<rparr>"


text \<open>The environment two time units later.\<close>

definition gateway_down_later :: env where
  "gateway_down_later = gateway_down\<lparr>utcnow := 9\<rparr>"

section \<open>The ledger invariant of the specification\<close>















section \<open>Theorems\<close>

subsection \<open>Rate calculation\<close>

lemma sms_units_ceiling:
  assumes "160 < n"
  shows "int (sms_units n) = \<lceil>(of_nat n :: rat) / 153\<rceil>"
proof -
  have c: "\<lceil>(of_nat n :: rat) / 153\<rceil> = - ((- int n) div 153)"
    using ceiling_divide_eq_div [of "int n" 153] by simp
  have d: "- ((- int n) div 153) = int n div 153 + (if int n mod 153 \<noteq> 0 then 1 else 0)"
    by (simp add: zdiv_zminus1_eq_if)
  have e: "int (n div 153) = int n div 153"
    by (simp add: zdiv_int)
  have f: "(n mod 153 \<noteq> 0) = (int n mod 153 \<noteq> 0)"
    using of_nat_mod [of n 153, where ?'a = int] of_nat_eq_0_iff [of "n mod 153", where ?'a = int]
    by (metis of_nat_numeral)
  show ?thesis
    using assms c d e f by (simp add: sms_units_def)
qed


text \<open>
  C4. The cost is a function of the message length, the recipient count and the unit
  price alone: one unit up to 160 characters, \<open>\<lceil>length / 153\<rceil>\<close> units above (so 160 gives
  1, 161 gives 2, 306 gives 2 and 307 gives 3), and the charge is units times unit price
  times recipients.
\<close>

theorem cost_computation:
  "sms_units n = (if n \<le> 160 then 1 else nat \<lceil>(of_nat n :: rat) / 153\<rceil>)
   \<and> sms_units 160 = 1 \<and> sms_units 161 = 2 \<and> sms_units 306 = 2 \<and> sms_units 307 = 3
   \<and> total_cost u n k = of_nat (sms_units n) * cost_per_sms u * of_nat k"
proof -
  have "sms_units n = (if n \<le> 160 then 1 else nat \<lceil>(of_nat n :: rat) / 153\<rceil>)"
  proof (cases "n \<le> 160")
    case True
    then show ?thesis by (simp add: sms_units_def)
  next
    case False
    then have "int (sms_units n) = \<lceil>(of_nat n :: rat) / 153\<rceil>"
      by (simp add: sms_units_ceiling)
    then have "sms_units n = nat \<lceil>(of_nat n :: rat) / 153\<rceil>"
      by linarith
    with False show ?thesis by simp
  qed
  moreover have "sms_units 160 = 1" "sms_units 161 = 2" "sms_units 306 = 2" "sms_units 307 = 3"
    by (simp_all add: sms_units_def)
  moreover have "total_cost u n k = of_nat (sms_units n) * cost_per_sms u * of_nat k"
    by (simp add: total_cost_def)
  ultimately show ?thesis by blast
qed

lemma open_session_simps:
  "committed (open_session d) = d" "pending (open_session d) = d"
  "rollback (open_session d) = open_session d"
  "commit (open_session d) = open_session d"
  by (simp_all add: open_session_def rollback_def commit_def)

lemma commit_pending_update:
  "committed (commit ((open_session d)\<lparr>pending := d'\<rparr>)) = d'"
  by (simp add: open_session_def commit_def)


lemma deduct_success:
  "tc \<le> balance u \<Longrightarrow>
   deduct_and_log_wallet s u tc d =
     Inr (commit (add_user (u\<lparr>wallet := Some (quantize (balance u - tc) 2)\<rparr>)
            (add_transaction (debit_transaction u tc d) s)),
          u\<lparr>wallet := Some (quantize (balance u - tc) 2)\<rparr>)"
  by (simp add: deduct_and_log_wallet_def Let_def)

lemma deduct_open_session:
  "tc \<le> balance u \<Longrightarrow>
   deduct_and_log_wallet (open_session d) u tc descr =
     Inr (open_session (debited d u tc descr), u\<lparr>wallet := Some (quantize (balance u - tc) 2)\<rparr>)"
  by (simp add: deduct_success commit_def add_user_def add_transaction_def open_session_def
      debited_def)



lemma log_history_committed:
  "log_history e u msg units tid rs s = Inr s' \<Longrightarrow>
   committed s' = committed s \<and> users (pending s') = users (pending s)
   \<and> transactions (pending s') = transactions (pending s)
   \<and> templates (pending s') = templates (pending s)"
  by (induction rs arbitrary: s) (auto simp: add_history_def split: option.splits)


lemma send_sms_gateway_fails:
  assumes "resolve_message (open_session (database a)) payload u = Inr msg"
    and "total_cost u (length msg) (length (to payload)) \<le> balance u"
    and "sms_send e (gateway_call_of e payload msg) = Inl ex"
  shows "send_sms e payload u a =
     (Inl (HTTPException 502 (SMS_gateway_failed ex)),
      a\<lparr>database := debited (database a) u (total_cost u (length msg) (length (to payload)))
                       (send_descr payload),
        gateway_calls := gateway_calls a @ [gateway_call_of e payload msg]\<rparr>)"
  using assms
  by (simp add: send_sms_def deduct_open_session send_descr_def gateway_call_of_def Let_def
      open_session_simps)




subsection \<open>Broadcast\<close>

lemma broadcast_loop_sent:
  "snd (broadcast_loop e m cs disc sent) = sent @ map (\<lambda>c. (c, m, send_text e c m)) cs"
  by (induction cs arbitrary: disc sent) auto

lemma broadcast_loop_disconnected:
  "set (fst (broadcast_loop e m cs disc sent)) = set disc \<union> {c \<in> set cs. \<not> send_text e c m}"
  by (induction cs arbitrary: disc sent) auto

lemma broadcast_eq:
  "broadcast e m a =
     a\<lparr>manager := (manager a)\<lparr>active_connections :=
          filter (\<lambda>c. send_text e c m) (active_connections (manager a))\<rparr>,
       sent_texts := sent_texts a @
          map (\<lambda>c. (c, m, send_text e c m)) (active_connections (manager a))\<rparr>"
proof -
  obtain disc sent where l:
    "broadcast_loop e m (active_connections (manager a)) [] (sent_texts a) = (disc, sent)"
    by (cases "broadcast_loop e m (active_connections (manager a)) [] (sent_texts a)")
  have s: "sent = sent_texts a @ map (\<lambda>c. (c, m, send_text e c m)) (active_connections (manager a))"
    using broadcast_loop_sent [of e m "active_connections (manager a)" "[]" "sent_texts a"] l
    by simp
  have d: "set disc = {c \<in> set (active_connections (manager a)). \<not> send_text e c m}"
    using broadcast_loop_disconnected [of e m "active_connections (manager a)" "[]" "sent_texts a"] l
    by simp
  have f: "filter (\<lambda>c. c \<notin> set disc) (active_connections (manager a)) =
           filter (\<lambda>c. send_text e c m) (active_connections (manager a))"
    by (rule filter_cong) (auto simp: d)
  show ?thesis
    using l s f by (simp add: broadcast_def)
qed

lemma broadcast_fields:
  "database (broadcast e m a) = database a"
  "gateway_calls (broadcast e m a) = gateway_calls a"
  "sent_texts (broadcast e m a) =
     sent_texts a @ map (\<lambda>c. (c, m, send_text e c m)) (active_connections (manager a))"
  "active_connections (manager (broadcast e m a)) =
     filter (\<lambda>c. send_text e c m) (active_connections (manager a))"
  by (simp_all add: broadcast_eq)


subsection \<open>Insufficient funds\<close>



lemma ex_resolve:
  "resolve_message (open_session (database ex_app)) ex_payload u = Inr ''hi''"
  by (simp add: resolve_message_def ex_payload_def)

lemma ex_cost: "total_cost ex_user (length ''hi'') (length (to ex_payload)) = 32"
  "total_cost (new_user 1) (length ''hi'') (length (to ex_payload)) = 32"
  by (simp_all add: total_cost_def cost_per_sms_def sms_units_def ex_user_def ex_payload_def
      new_user_def)


subsection \<open>Rounding\<close>

lemma round_half_even_of_int: "round_half_even (of_int n) = n"
  by (simp add: round_half_even_def)

lemma quantize_exact: "decimal_places p d \<Longrightarrow> quantize d p = d"
proof -
  assume "decimal_places p d"
  then have "d * 10 ^ p = of_int \<lfloor>d * 10 ^ p\<rfloor>"
    by (simp add: decimal_places_def)
  then have "round_half_even (d * 10 ^ p) = \<lfloor>d * 10 ^ p\<rfloor>"
    by (metis round_half_even_of_int)
  then have "quantize d p = of_int \<lfloor>d * 10 ^ p\<rfloor> / 10 ^ p"
    by (simp add: quantize_def)
  also have "\<dots> = d * 10 ^ p / 10 ^ p"
    using \<open>d * 10 ^ p = of_int \<lfloor>d * 10 ^ p\<rfloor>\<close> by simp
  finally show ?thesis by simp
qed

lemma decimal_places_of_int: "decimal_places p (of_int n)"
proof -
  have "(of_int n :: rat) * 10 ^ p = of_int (n * 10 ^ p)" by simp
  then show ?thesis
    unfolding decimal_places_def by (metis floor_of_int)
qed

lemma quantize_of_int: "quantize (of_int n) p = of_int n"
  by (simp add: quantize_exact decimal_places_of_int)




subsection \<open>Total failure of the provider\<close>

lemma quantize_numeral: "quantize (numeral k) p = numeral k"
  using quantize_of_int [of "numeral k" p] by simp

text \<open>
  C1 (the code at a failing input). The account holds 100.00, one message to one
  recipient costs 32, and the provider is unreachable. The handler answers 502, and the
  database it leaves holds the wallet at 68.00 and a ledger of the one debit: the debit
  was committed inside \<open>deduct_and_log_wallet\<close>, the rollback of the \<^verbatim>\<open>except\<close> clause
  finds nothing to undo, and no credit is issued. No history row exists.
\<close>

theorem gateway_failure_keeps_debit:
  "fst (send_sms gateway_down ex_payload ex_user ex_app) =
     Inl (HTTPException 502 (SMS_gateway_failed (GatewayError ''timeout'')))
   \<and> balance ex_user = 100
   \<and> map_option balance (users (database (snd (send_sms gateway_down ex_payload ex_user ex_app))) 1)
       = Some 68
   \<and> map transaction_type
        (transactions (database (snd (send_sms gateway_down ex_payload ex_user ex_app))))
       = [''debit'']
   \<and> smshistory (database (snd (send_sms gateway_down ex_payload ex_user ex_app))) = []"
proof -
  have r: "resolve_message (open_session (database ex_app)) ex_payload ex_user = Inr ''hi''"
    by (rule ex_resolve)
  have b: "balance ex_user = 100"
    by (simp add: balance_def ex_user_def)
  have c: "total_cost ex_user (length ''hi'') (length (to ex_payload)) \<le> balance ex_user"
    by (simp only: ex_cost b)
  have g: "sms_send gateway_down (gateway_call_of gateway_down ex_payload ''hi'') =
           Inl (GatewayError ''timeout'')"
    by (simp add: gateway_down_def)
  show ?thesis
    unfolding send_sms_gateway_fails [OF r c g] ex_cost
    by (simp add: debited_def b quantize_numeral debit_transaction_def ex_app_def ex_db_def
        balance_def ex_user_def)
qed

subsection \<open>Partial results\<close>




subsection \<open>Delivery reports\<close>

lemma first_index_SomeD:
  "first_index P xs = Some i \<Longrightarrow> i < length xs \<and> P (xs ! i)"
  by (induction xs arbitrary: i) (auto split: if_splits)

lemma first_index_update:
  "first_index P xs = Some i \<Longrightarrow> P y \<Longrightarrow> first_index P (xs[i := y]) = Some i"
  by (induction xs arbitrary: i) (auto split: if_splits)

lemma str_contains_iff: "str_contains sub s \<longleftrightarrow> (\<exists>p q. s = p @ sub @ q)"
proof (induction s)
  case Nil
  then show ?case by auto
next
  case (Cons c cs)
  have "(\<exists>p q. c # cs = p @ sub @ q) \<longleftrightarrow> prefix sub (c # cs) \<or> (\<exists>p q. cs = p @ sub @ q)"
  proof
    assume "\<exists>p q. c # cs = p @ sub @ q"
    then obtain p q where e: "c # cs = p @ sub @ q" by blast
    show "prefix sub (c # cs) \<or> (\<exists>p q. cs = p @ sub @ q)"
    proof (cases p)
      case Nil
      then show ?thesis using e by (auto simp: prefix_def)
    next
      case (Cons a p')
      then have "cs = p' @ sub @ q" using e by simp
      then show ?thesis by blast
    qed
  next
    assume "prefix sub (c # cs) \<or> (\<exists>p q. cs = p @ sub @ q)"
    then show "\<exists>p q. c # cs = p @ sub @ q"
    proof
      assume "prefix sub (c # cs)"
      then obtain q where "c # cs = sub @ q" by (auto simp: prefix_def)
      then have "c # cs = [] @ sub @ q" by simp
      then show ?thesis by blast
    next
      assume "\<exists>p q. cs = p @ sub @ q"
      then obtain p q where "cs = p @ sub @ q" by blast
      then have "c # cs = (c # p) @ sub @ q" by simp
      then show ?thesis by blast
    qed
  qed
  with Cons show ?case by simp
qed

lemma webhook_miss:
  "find_history (rep_id rep) (open_session (database a)) = None \<Longrightarrow>
   delivery_report_webhook e rep a = (Inr received, broadcast e (event_of_report rep) a)"
  by (simp add: delivery_report_webhook_def)

lemma webhook_no_status:
  "find_history (rep_id rep) (open_session (database a)) = Some i \<Longrightarrow> rep_status rep = None \<Longrightarrow>
   delivery_report_webhook e rep a = (Inl (Unhandled AttributeError), a)"
  by (simp add: delivery_report_webhook_def)

lemma webhook_hit:
  "find_history (rep_id rep) (open_session (database a)) = Some i \<Longrightarrow> rep_status rep = Some st \<Longrightarrow>
   delivery_report_webhook e rep a =
     (Inr received,
      broadcast e (event_of_report rep)
        (a\<lparr>database := (database a)\<lparr>smshistory :=
             (smshistory (database a))[i := reconciled e rep st (smshistory (database a) ! i)]\<rparr>\<rparr>))"
  by (simp add: delivery_report_webhook_def Let_def open_session_simps commit_pending_update)

lemma find_history_open:
  "find_history m (open_session d) = first_index (\<lambda>h. external_id h = m) (smshistory d)"
  by (simp add: find_history_def open_session_simps)

lemma find_history_after_hit:
  assumes "find_history m (open_session d) = Some i"
  shows "find_history m
           (open_session (d\<lparr>smshistory := (smshistory d)[i := reconciled e rep st (smshistory d ! i)]\<rparr>))
         = Some i"
proof -
  have f: "first_index (\<lambda>h. external_id h = m) (smshistory d) = Some i"
    using assms by (simp add: find_history_open)
  then have "external_id (smshistory d ! i) = m"
    using first_index_SomeD [OF f] by simp
  then have "external_id (reconciled e rep st (smshistory d ! i)) = m"
    by (simp add: reconciled_def)
  then show ?thesis
    using first_index_update [OF f] by (simp add: find_history_open)
qed

text \<open>
  C9. When the report's id is found and the report carries a status text, the handler
  acknowledges and the row's delivered timestamp becomes the current time if the text
  \<^verbatim>\<open>Delivered\<close> occurs in the status as it is written, and \<open>None\<close> otherwise, whatever
  the row held before; the status becomes the lower-cased text and the error message the
  report's failure reason.
\<close>

theorem delivered_at_overwritten:
  assumes "find_history (rep_id rep) (open_session (database a)) = Some i"
    and "rep_status rep = Some st"
  shows "fst (delivery_report_webhook e rep a) = Inr received
     \<and> i < length (smshistory (database a))
     \<and> external_id (smshistory (database a) ! i) = rep_id rep
     \<and> smshistory (database (snd (delivery_report_webhook e rep a))) =
         (smshistory (database a))[i := (smshistory (database a) ! i)
            \<lparr>h_status := lower st, error_message := failureReason rep,
             delivered_at := (if \<exists>p q. st = p @ ''Delivered'' @ q then Some (utcnow e) else None)\<rparr>]
     \<and> delivered_at (smshistory (database (snd (delivery_report_webhook e rep a))) ! i) =
         (if \<exists>p q. st = p @ ''Delivered'' @ q then Some (utcnow e) else None)"
proof -
  have f: "first_index (\<lambda>h. external_id h = rep_id rep) (smshistory (database a)) = Some i"
    using assms(1) by (simp add: find_history_open)
  have i: "i < length (smshistory (database a))" "external_id (smshistory (database a) ! i) = rep_id rep"
    using first_index_SomeD [OF f] by simp_all
  show ?thesis
    using i
    by (simp add: webhook_hit [OF assms] broadcast_fields reconciled_def str_contains_iff)
qed

lemma ex_sent_find:
  "find_history (Some ''ATXid_1'') (open_session (database ex_sent)) = Some 0"
  "find_history (Some ''ATXid_9'') (open_session (database ex_sent)) = None"
  by (simp_all add: find_history_open ex_sent_def ex_row_def)

theorem delivered_at_overwritten_witness:
  "delivered_at (smshistory (database ex_sent) ! 0) = Some 5
   \<and> delivered_at
       (smshistory (database (snd (delivery_report_webhook gateway_down report_failed ex_sent))) ! 0)
      = None
   \<and> delivered_at
       (smshistory (database (snd (delivery_report_webhook gateway_down report_delivered ex_sent))) ! 0)
      = Some 7"
proof -
  have n: "\<not> (\<exists>p q. ''Failed'' = p @ ''Delivered'' @ q)"
    using str_contains_iff [of "''Delivered''" "''Failed''"] by simp
  have y: "\<exists>p q. ''Delivered'' = p @ ''Delivered'' @ q"
    using str_contains_iff [of "''Delivered''" "''Delivered''"] by simp
  have a: "find_history (rep_id report_failed) (open_session (database ex_sent)) = Some 0"
    "find_history (rep_id report_delivered) (open_session (database ex_sent)) = Some 0"
    by (simp_all add: report_failed_def report_delivered_def ex_sent_find)
  have s: "rep_status report_failed = Some ''Failed''"
    "rep_status report_delivered = Some ''Delivered''"
    by (simp_all add: report_failed_def report_delivered_def)
  have u: "utcnow gateway_down = 7"
    by (simp add: gateway_down_def)
  have "delivered_at (smshistory (database ex_sent) ! 0) = Some 5"
    by (simp add: ex_sent_def ex_row_def)
  moreover have "delivered_at
       (smshistory (database (snd (delivery_report_webhook gateway_down report_failed ex_sent))) ! 0)
      = None"
    using delivered_at_overwritten [OF a(1) s(1), of gateway_down] n by simp
  moreover have "delivered_at
       (smshistory (database (snd (delivery_report_webhook gateway_down report_delivered ex_sent))) ! 0)
      = Some 7"
    using delivered_at_overwritten [OF a(2) s(2), of gateway_down] y u by simp
  ultimately show ?thesis by blast
qed



subsection \<open>Duplicate delivery reports\<close>

lemma reconciled_twice:
  "reconciled e2 rep st (reconciled e1 rep st h) = reconciled e2 rep st h"
  by (simp add: reconciled_def)

lemma reconciled_up_to_delivered_at:
  "(reconciled e rep st h)\<lparr>delivered_at := None\<rparr> =
     h\<lparr>h_status := lower st, error_message := failureReason rep, delivered_at := None\<rparr>"
  by (simp add: reconciled_def)

lemma webhook_twice_hit:
  assumes "find_history (rep_id rep) (open_session (database a)) = Some i"
    and "rep_status rep = Some st"
  shows "delivery_report_webhook e2 rep (snd (delivery_report_webhook e1 rep a)) =
     (Inr received,
      broadcast e2 (event_of_report rep)
        ((broadcast e1 (event_of_report rep) a)\<lparr>database := (database a)\<lparr>smshistory :=
             (smshistory (database a))[i := reconciled e2 rep st (smshistory (database a) ! i)]\<rparr>\<rparr>))"
proof -
  let ?xs = "smshistory (database a)"
  let ?d1 = "(database a)\<lparr>smshistory := ?xs[i := reconciled e1 rep st (?xs ! i)]\<rparr>"
  let ?a1 = "broadcast e1 (event_of_report rep) (a\<lparr>database := ?d1\<rparr>)"
  have f: "first_index (\<lambda>h. external_id h = rep_id rep) ?xs = Some i"
    using assms(1) by (simp add: find_history_open)
  have i: "i < length ?xs"
    using first_index_SomeD [OF f] by simp
  have 1: "delivery_report_webhook e1 rep a = (Inr received, ?a1)"
    by (rule webhook_hit [OF assms])
  have d: "database ?a1 = ?d1"
    by (simp add: broadcast_fields)
  have "find_history (rep_id rep) (open_session ?d1) = Some i"
    by (rule find_history_after_hit [OF assms(1)])
  then have g: "find_history (rep_id rep) (open_session (database ?a1)) = Some i"
    by (simp only: d)
  have 2: "delivery_report_webhook e2 rep ?a1 =
     (Inr received,
      broadcast e2 (event_of_report rep)
        (?a1\<lparr>database := (database ?a1)\<lparr>smshistory :=
             (smshistory (database ?a1))[i := reconciled e2 rep st (smshistory (database ?a1) ! i)]\<rparr>\<rparr>))"
    by (rule webhook_hit [OF g assms(2)])
  have u: "(database ?a1)\<lparr>smshistory :=
             (smshistory (database ?a1))[i := reconciled e2 rep st (smshistory (database ?a1) ! i)]\<rparr>
           = (database a)\<lparr>smshistory := ?xs[i := reconciled e2 rep st (?xs ! i)]\<rparr>"
    using i by (simp add: d reconciled_twice)
  have b: "?a1\<lparr>database := D\<rparr> = (broadcast e1 (event_of_report rep) a)\<lparr>database := D\<rparr>" for D
    by (simp add: broadcast_eq)
  show ?thesis
    unfolding 1 snd_conv 2 u b ..
qed

text \<open>
  C5 (as the code has it). A second delivery of the same report is answered like the
  first and changes no user row, wallet, ledger entry or template. It leaves the history
  as the first delivery left it, except that the delivered timestamp of the row found is
  set again from the clock of the second call: the two histories agree up to that
  column, and the databases are equal when the two calls read the same time. But the
  second call broadcasts again: every observer still connected is sent the delivery
  update a second time.
\<close>

theorem duplicate_callback:
  "fst (delivery_report_webhook e2 rep (snd (delivery_report_webhook e1 rep a))) =
     fst (delivery_report_webhook e1 rep a)
   \<and> users (database (snd (delivery_report_webhook e2 rep (snd (delivery_report_webhook e1 rep a)))))
       = users (database a)
   \<and> transactions
        (database (snd (delivery_report_webhook e2 rep (snd (delivery_report_webhook e1 rep a)))))
       = transactions (database a)
   \<and> map (\<lambda>h. h\<lparr>delivered_at := None\<rparr>)
        (smshistory
           (database (snd (delivery_report_webhook e2 rep (snd (delivery_report_webhook e1 rep a))))))
      = map (\<lambda>h. h\<lparr>delivered_at := None\<rparr>)
          (smshistory (database (snd (delivery_report_webhook e1 rep a))))
   \<and> (utcnow e2 = utcnow e1 \<longrightarrow>
        database (snd (delivery_report_webhook e2 rep (snd (delivery_report_webhook e1 rep a))))
        = database (snd (delivery_report_webhook e1 rep a)))
   \<and> (fst (delivery_report_webhook e1 rep a) = Inr received \<longrightarrow>
        sent_texts (snd (delivery_report_webhook e2 rep (snd (delivery_report_webhook e1 rep a))))
        = sent_texts (snd (delivery_report_webhook e1 rep a)) @
            map (\<lambda>c. (c, event_of_report rep, send_text e2 c (event_of_report rep)))
              (active_connections (manager (snd (delivery_report_webhook e1 rep a)))))"
proof (cases "find_history (rep_id rep) (open_session (database a))")
  case None
  have 1: "delivery_report_webhook e1 rep a = (Inr received, broadcast e1 (event_of_report rep) a)"
    by (rule webhook_miss [OF None])
  have "find_history (rep_id rep) (open_session (database (broadcast e1 (event_of_report rep) a))) = None"
    using None by (simp add: broadcast_fields)
  then have 2: "delivery_report_webhook e2 rep (broadcast e1 (event_of_report rep) a) =
      (Inr received, broadcast e2 (event_of_report rep) (broadcast e1 (event_of_report rep) a))"
    by (rule webhook_miss)
  show ?thesis
    by (simp add: 1 2 broadcast_fields)
next
  case (Some i)
  show ?thesis
  proof (cases "rep_status rep")
    case None
    have 1: "delivery_report_webhook e rep a = (Inl (Unhandled AttributeError), a)" for e
      by (rule webhook_no_status [OF Some None])
    show ?thesis
      by (simp add: 1)
  next
    case (Some st)
    note hit = \<open>find_history (rep_id rep) (open_session (database a)) = Some i\<close>
    have f: "first_index (\<lambda>h. external_id h = rep_id rep) (smshistory (database a)) = Some i"
      using hit by (simp add: find_history_open)
    have i: "i < length (smshistory (database a))"
      using first_index_SomeD [OF f] by simp
    show ?thesis
      apply (simp only: webhook_twice_hit [OF hit Some])
      apply (simp only: webhook_hit [OF hit Some])
      apply (simp add: broadcast_fields map_update reconciled_up_to_delivered_at)
      apply (simp add: reconciled_def)
      done
  qed
qed

theorem duplicate_callback_witness:
  "fst (delivery_report_webhook gateway_down_later report_delivered
          (snd (delivery_report_webhook gateway_down report_delivered ex_sent))) = Inr received
   \<and> length (sent_texts (snd (delivery_report_webhook gateway_down report_delivered ex_sent))) = 2
   \<and> length (sent_texts (snd (delivery_report_webhook gateway_down_later report_delivered
          (snd (delivery_report_webhook gateway_down report_delivered ex_sent))))) = 4
   \<and> database (snd (delivery_report_webhook gateway_down report_delivered
          (snd (delivery_report_webhook gateway_down report_delivered ex_sent))))
       = database (snd (delivery_report_webhook gateway_down report_delivered ex_sent))"
proof -
  have a: "find_history (rep_id report_delivered) (open_session (database ex_sent)) = Some 0"
    by (simp add: report_delivered_def ex_sent_find)
  have s: "rep_status report_delivered = Some ''Delivered''"
    by (simp add: report_delivered_def)
  have 1: "fst (delivery_report_webhook gateway_down report_delivered ex_sent) = Inr received"
    unfolding webhook_hit [OF a s] by simp
  have 2: "sent_texts (snd (delivery_report_webhook gateway_down report_delivered ex_sent)) =
      [(1, event_of_report report_delivered, True), (2, event_of_report report_delivered, True)]"
    "active_connections (manager (snd (delivery_report_webhook gateway_down report_delivered ex_sent)))
      = [1, 2]"
    unfolding webhook_hit [OF a s]
    by (simp_all add: broadcast_fields ex_sent_def ex_app_def gateway_down_def)
  show ?thesis
    using duplicate_callback [of gateway_down_later report_delivered gateway_down ex_sent]
      duplicate_callback [of gateway_down report_delivered gateway_down ex_sent]
    by (simp add: 1 2)
qed

text \<open>
  C5 (as the claim states it) fails. With two observers connected, the first delivery of
  the report sends two texts and the second delivery of the same report, at the same
  time, sends two more: the broadcast is a side effect of the second call.
\<close>

theorem duplicate_callback_rebroadcasts:
  "sent_texts (snd (delivery_report_webhook gateway_down report_delivered
      (snd (delivery_report_webhook gateway_down report_delivered ex_sent))))
   \<noteq> sent_texts (snd (delivery_report_webhook gateway_down report_delivered ex_sent))
   \<and> delivered_at (smshistory (database (snd
        (delivery_report_webhook gateway_down report_delivered ex_sent))) ! 0) = Some 7
   \<and> delivered_at (smshistory (database (snd
        (delivery_report_webhook gateway_down_later report_delivered
           (snd (delivery_report_webhook gateway_down report_delivered ex_sent))))) ! 0) = Some 9"
proof -
  have a: "find_history (rep_id report_delivered) (open_session (database ex_sent)) = Some 0"
    by (simp add: report_delivered_def ex_sent_find)
  have s: "rep_status report_delivered = Some ''Delivered''"
    by (simp add: report_delivered_def)
  have c: "str_contains ''Delivered'' ''Delivered''"
    by simp
  show ?thesis
    apply (simp only: webhook_twice_hit [OF a s])
    apply (simp only: webhook_hit [OF a s])
    apply (simp add: broadcast_fields reconciled_def c ex_sent_def ex_app_def ex_db_def
        gateway_down_def gateway_down_later_def)
    done
qed

subsection \<open>Floats of whole numbers\<close>


























subsection \<open>The ledger invariant\<close>













subsection \<open>Two representations of the balance\<close>





subsection \<open>The ledger invariant as the specification states it\<close>



subsection \<open>The number model\<close>

text \<open>The exponents bracket the number, a float is a 53-bit significand at most half a
  unit in the last place away from the number it converts, \<^verbatim>\<open>str\<close> of a float reads back as
  that float, and rounding to places moves a Decimal by at most half a unit of the last
  place.\<close>

lemma quotient_of_abs_pos:
  assumes "x \<noteq> 0" and "quotient_of \<bar>x\<bar> = (p, q)"
  shows "0 < p" "0 < q" "\<bar>x\<bar> = of_int p / of_int q"
proof -
  show q: "0 < q"
    using assms(2) by (rule quotient_of_denom_pos)
  show e: "\<bar>x\<bar> = of_int p / of_int q"
    using assms(2) by (rule quotient_of_div)
  have "0 < \<bar>x\<bar>" using assms(1) by simp
  then have "0 < rat_of_int p / rat_of_int q" using e by simp
  then show "0 < p"
    using q by (simp add: zero_less_divide_iff)
qed

lemma bitlen_bounds_rat:
  assumes "0 < a"
  shows "2 powi (bitlen a - 1) \<le> rat_of_int a" "rat_of_int a < 2 powi (bitlen a)"
proof -
  have b: "1 \<le> bitlen a"
    using assms by (auto simp: bitlen_alt_def)
  have "2 ^ nat (bitlen a - 1) \<le> a" "a < 2 ^ nat (bitlen a)"
    using bitlen_bounds [OF assms] by simp_all
  then have "rat_of_int (2 ^ nat (bitlen a - 1)) \<le> rat_of_int a"
    "rat_of_int a < rat_of_int (2 ^ nat (bitlen a))"
    by (simp_all only: of_int_le_iff of_int_less_iff)
  then show "2 powi (bitlen a - 1) \<le> rat_of_int a" "rat_of_int a < 2 powi (bitlen a)"
    using b by (simp_all add: power_int_def)
qed

lemma binary_test:
  assumes "0 < p" "0 < q"
  shows "(q * 2 ^ nat k \<le> p * 2 ^ nat (- k)) = (rat_of_int q * 2 powi k \<le> rat_of_int p)"
proof (cases "0 \<le> k")
  case True
  then have "(q * 2 ^ nat k \<le> p * 2 ^ nat (- k)) = (q * 2 ^ nat k \<le> p)"
    by simp
  also have "\<dots> = (rat_of_int (q * 2 ^ nat k) \<le> rat_of_int p)"
    by (simp only: of_int_le_iff)
  also have "\<dots> = (rat_of_int q * 2 powi k \<le> rat_of_int p)"
    using True by (simp add: power_int_def)
  finally show ?thesis .
next
  case False
  then have "(q * 2 ^ nat k \<le> p * 2 ^ nat (- k)) = (q \<le> p * 2 ^ nat (- k))"
    by simp
  also have "\<dots> = (rat_of_int q \<le> rat_of_int (p * 2 ^ nat (- k)))"
    by (simp only: of_int_le_iff)
  also have "\<dots> = (rat_of_int q \<le> rat_of_int p * 2 ^ nat (- k))"
    by simp
  also have "\<dots> = (rat_of_int q * 2 powi k \<le> rat_of_int p)"
    using False by (simp add: power_int_def field_simps)
  finally show ?thesis .
qed

lemma binary_exponent_bounds:
  assumes "x \<noteq> 0"
  shows "2 powi (binary_exponent x) \<le> \<bar>x\<bar>" and "\<bar>x\<bar> < 2 powi (binary_exponent x + 1)"
proof -
  obtain p q where pq: "quotient_of \<bar>x\<bar> = (p, q)"
    by (cases "quotient_of \<bar>x\<bar>")
  note f = quotient_of_abs_pos [OF assms pq]
  define k where "k = bitlen p - bitlen q"
  let ?P = "rat_of_int p" and ?Q = "rat_of_int q"
  have Q: "0 < ?Q" using f(2) by simp
  have x: "\<bar>x\<bar> = ?P / ?Q" by (rule f(3))
  have "binary_exponent x = (if q * 2 ^ nat k \<le> p * 2 ^ nat (- k) then k else k - 1)"
    unfolding binary_exponent_def pq k_def by (simp only: Let_def prod.case)
  then have e: "binary_exponent x = (if ?Q * 2 powi k \<le> ?P then k else k - 1)"
    by (simp only: binary_test [OF f(1,2)])
  have up: "?P < 2 powi (k + 1) * ?Q"
  proof -
    have "?P < 2 powi (bitlen p)" by (rule bitlen_bounds_rat(2) [OF f(1)])
    also have "bitlen p = (k + 1) + (bitlen q - 1)" by (simp add: k_def)
    also have "(2::rat) powi ((k + 1) + (bitlen q - 1)) = 2 powi (k + 1) * 2 powi (bitlen q - 1)"
      by (intro power_int_add) simp
    also have "\<dots> \<le> 2 powi (k + 1) * ?Q"
      using bitlen_bounds_rat(1) [OF f(2)] by (simp add: mult_left_mono)
    finally show ?thesis .
  qed
  have lo: "2 powi (k - 1) * ?Q < ?P"
  proof -
    have "2 powi (k - 1) * ?Q < 2 powi (k - 1) * 2 powi (bitlen q)"
      using bitlen_bounds_rat(2) [OF f(2)] by (simp add: mult_strict_left_mono)
    also have "\<dots> = 2 powi ((k - 1) + bitlen q)"
      by (intro power_int_add [symmetric]) simp
    also have "(k - 1) + bitlen q = bitlen p - 1" by (simp add: k_def)
    also have "2 powi (bitlen p - 1) \<le> ?P" by (rule bitlen_bounds_rat(1) [OF f(1)])
    finally show ?thesis .
  qed
  show "2 powi (binary_exponent x) \<le> \<bar>x\<bar>"
  proof (cases "?Q * 2 powi k \<le> ?P")
    case True
    then have "2 powi k \<le> ?P / ?Q"
      using Q by (simp add: pos_le_divide_eq mult.commute)
    then show ?thesis using True by (simp add: e x)
  next
    case False
    have "2 powi (k - 1) \<le> ?P / ?Q"
      using lo Q by (simp add: pos_le_divide_eq)
    then show ?thesis using False by (simp add: e x)
  qed
  show "\<bar>x\<bar> < 2 powi (binary_exponent x + 1)"
  proof (cases "?Q * 2 powi k \<le> ?P")
    case True
    have "?P / ?Q < 2 powi (k + 1)"
      using up Q by (simp add: pos_divide_less_eq)
    then show ?thesis using True by (simp add: e x)
  next
    case False
    then have "?P < 2 powi k * ?Q"
      by (simp add: mult.commute)
    then have "?P / ?Q < 2 powi k"
      using Q by (simp add: pos_divide_less_eq)
    then show ?thesis using False by (simp add: e x)
  qed
qed


lemma round_half_even_error: "\<bar>rat_of_int (round_half_even y) - y\<bar> \<le> 1 / 2"
proof -
  have "rat_of_int \<lfloor>y\<rfloor> \<le> y" "y < rat_of_int \<lfloor>y\<rfloor> + 1"
    by linarith+
  then show ?thesis
    by (auto simp: round_half_even_def Let_def abs_le_iff)
qed

lemma round_half_even_tie:
  "y - rat_of_int \<lfloor>y\<rfloor> = 1 / 2 \<Longrightarrow> even (round_half_even y)"
  by (simp add: round_half_even_def Let_def)

lemma round_half_even_mono_bounds:
  assumes "rat_of_int a \<le> y" "y \<le> rat_of_int b"
  shows "a \<le> round_half_even y" "round_half_even y \<le> b"
proof -
  have f: "a \<le> \<lfloor>y\<rfloor>" using assms(1) by (simp add: le_floor_iff)
  have c: "\<lfloor>y\<rfloor> \<le> b" using assms(2) by (simp add: floor_le_iff)
  have "y < rat_of_int \<lfloor>y\<rfloor> + 1" by linarith
  have up: "\<lfloor>y\<rfloor> + 1 \<le> b" if "rat_of_int \<lfloor>y\<rfloor> < y"
  proof -
    have "rat_of_int \<lfloor>y\<rfloor> < rat_of_int b" using that assms(2) by linarith
    then show ?thesis by simp
  qed
  show "a \<le> round_half_even y"
    using f by (auto simp: round_half_even_def Let_def)
  show "round_half_even y \<le> b"
  proof (cases "y - rat_of_int \<lfloor>y\<rfloor> < 1 / 2")
    case True
    then show ?thesis using c by (simp add: round_half_even_def Let_def)
  next
    case False
    then have "rat_of_int \<lfloor>y\<rfloor> < y" by linarith
    then show ?thesis
      using up c by (auto simp: round_half_even_def Let_def)
  qed
qed

text \<open>\<open>py_float x\<close> is a number with a 53-bit significand at the exponent of \<open>x\<close>, at
  most half a unit in the last place away from \<open>x\<close>.\<close>

lemma py_float_nearest:
  assumes "x \<noteq> 0"
  shows "\<exists>m. py_float x = of_int m * 2 powi (binary_exponent x - 52)
           \<and> 2 ^ 52 \<le> \<bar>m\<bar> \<and> \<bar>m\<bar> \<le> 2 ^ 53
           \<and> \<bar>py_float x - x\<bar> \<le> 2 powi (binary_exponent x - 52) / 2"
proof -
  define u :: rat where "u = 2 powi (binary_exponent x - 52)"
  define m where "m = round_half_even (x / u)"
  have u: "0 < u" by (simp add: u_def)
  have p: "py_float x = of_int m * u"
    using assms by (simp add: py_float_def u_def m_def Let_def)
  have e52: "(2::rat) powi (binary_exponent x) = 2 ^ 52 * u"
  proof -
    have "binary_exponent x = 52 + (binary_exponent x - 52)"
      by simp
    then have "(2::rat) powi (binary_exponent x) = 2 powi (52 + (binary_exponent x - 52))"
      by (rule arg_cong)
    also have "\<dots> = 2 powi 52 * 2 powi (binary_exponent x - 52)"
      by (intro power_int_add) simp
    finally show ?thesis by (simp add: u_def)
  qed
  have e53: "(2::rat) powi (binary_exponent x + 1) = 2 ^ 53 * u"
  proof -
    have "binary_exponent x + 1 = 53 + (binary_exponent x - 52)"
      by simp
    then have "(2::rat) powi (binary_exponent x + 1) = 2 powi (53 + (binary_exponent x - 52))"
      by (rule arg_cong)
    also have "\<dots> = 2 powi 53 * 2 powi (binary_exponent x - 52)"
      by (intro power_int_add) simp
    finally show ?thesis by (simp add: u_def)
  qed
  have lo: "2 ^ 52 \<le> \<bar>x\<bar> / u" and hi: "\<bar>x\<bar> / u \<le> 2 ^ 53"
    using binary_exponent_bounds [OF assms] u
    by (simp_all add: e52 e53 pos_le_divide_eq pos_divide_le_eq)
  have err: "\<bar>rat_of_int m - x / u\<bar> \<le> 1 / 2"
    unfolding m_def by (rule round_half_even_error)
  have "\<bar>py_float x - x\<bar> = \<bar>rat_of_int m - x / u\<bar> * u"
  proof -
    have "py_float x - x = (rat_of_int m - x / u) * u"
      using u by (simp add: p field_simps)
    then show ?thesis
      using u by (simp add: abs_mult)
  qed
  also have "\<dots> \<le> 1 / 2 * u"
    using err u by (simp add: mult_right_mono)
  finally have d: "\<bar>py_float x - x\<bar> \<le> u / 2" by simp
  have m: "2 ^ 52 \<le> \<bar>m\<bar> \<and> \<bar>m\<bar> \<le> 2 ^ 53"
  proof (cases "0 \<le> x")
    case True
    then have "rat_of_int (2 ^ 52) \<le> x / u" "x / u \<le> rat_of_int (2 ^ 53)"
      using lo hi by simp_all
    then have "2 ^ 52 \<le> m" "m \<le> 2 ^ 53"
      unfolding m_def by (rule round_half_even_mono_bounds)+
    then show ?thesis by simp
  next
    case False
    then have "rat_of_int (- (2 ^ 53)) \<le> x / u" "x / u \<le> rat_of_int (- (2 ^ 52))"
      using lo hi u by (simp_all add: abs_if field_simps split: if_splits)
    then have "- (2 ^ 53) \<le> m" "m \<le> - (2 ^ 52)"
      unfolding m_def by (rule round_half_even_mono_bounds)+
    then show ?thesis by simp
  qed
  show ?thesis
    using p m d unfolding u_def by blast
qed


lemma float_str_from_reads_back:
  "py_float x = x \<Longrightarrow> py_float (float_str_from x n k) = x"
proof (induction k arbitrary: n)
  case 0
  then show ?case by simp
next
  case (Suc k)
  show ?case
  proof (cases "shortest_at x n")
    case None
    then show ?thesis using Suc by simp
  next
    case (Some c)
    then have "py_float c = x"
      by (auto simp: shortest_at_def Let_def split: if_splits)
    then show ?thesis using Some by simp
  qed
qed

text \<open>\<^verbatim>\<open>float(str(x)) == x\<close> for every float \<open>x\<close>.\<close>

lemma float_str_reads_back: "py_float x = x \<Longrightarrow> py_float (float_str x) = x"
proof (cases "x = 0")
  case True
  then show ?thesis by (simp add: float_str_def py_float_def)
next
  case False
  assume "py_float x = x"
  then show ?thesis
    using False by (simp add: float_str_def float_str_from_reads_back)
qed

lemma quantize_error: "\<bar>quantize d p - d\<bar> \<le> 1 / (2 * 10 ^ p)"
proof -
  define r where "r = rat_of_int (round_half_even (d * 10 ^ p)) - d * 10 ^ p"
  have r: "\<bar>r\<bar> \<le> 1 / 2"
    unfolding r_def by (rule round_half_even_error)
  have "quantize d p - d = r / 10 ^ p"
    by (simp add: quantize_def r_def field_simps)
  then have "\<bar>quantize d p - d\<bar> = \<bar>r\<bar> / 10 ^ p"
    by (simp add: abs_divide)
  also have "\<dots> \<le> (1 / 2) / 10 ^ p"
    using r by (intro divide_right_mono) simp_all
  finally show ?thesis by simp
qed


lemma declen_bounds_rat:
  assumes "0 < a"
  shows "10 powi (declen a - 1) \<le> rat_of_int a" "rat_of_int a < 10 powi (declen a)"
proof -
  have lower: "0 < a \<Longrightarrow> 1 \<le> declen a \<and> 10 ^ nat (declen a - 1) \<le> a \<and> a < 10 ^ nat (declen a)"
  proof (induction a rule: declen.induct)
    case (1 a)
    have d: "declen a = declen (a div 10) + 1"
      using 1(2) by (subst declen.simps) simp
    show ?case
    proof (cases "0 < a div 10")
      case True
      then have ih: "1 \<le> declen (a div 10)"
        "10 ^ nat (declen (a div 10) - 1) \<le> a div 10"
        "a div 10 < 10 ^ nat (declen (a div 10))"
        using 1 by simp_all
      have n1: "nat (declen a - 1) = Suc (nat (declen (a div 10) - 1))"
        and n2: "nat (declen a) = Suc (nat (declen (a div 10)))"
        using ih(1) d by simp_all
      have m: "10 * (a div 10) \<le> a" "a < 10 * (a div 10) + 10"
        using mult_div_mod_eq [of 10 a] pos_mod_sign [of 10 a] pos_mod_bound [of 10 a]
        by linarith+
      have "(10::int) ^ nat (declen a - 1) \<le> a"
        unfolding n1 using ih(2) m(1) by simp
      moreover have "a < 10 ^ nat (declen a)"
        unfolding n2 using ih(3) m(2) by simp
      ultimately show ?thesis
        using d ih(1) by simp
    next
      case False
      then have z: "declen (a div 10) = 0"
        by (subst declen.simps) simp
      have "a div 10 \<le> 0" using False by simp
      then have "a < 10"
        using mult_div_mod_eq [of 10 a] pos_mod_bound [of 10 a] by linarith
      then show ?thesis
        using 1(2) d z by simp
    qed
  qed
  have b: "1 \<le> declen a" "10 ^ nat (declen a - 1) \<le> a" "a < 10 ^ nat (declen a)"
    using lower [OF assms] by simp_all
  then have "rat_of_int (10 ^ nat (declen a - 1)) \<le> rat_of_int a"
    "rat_of_int a < rat_of_int (10 ^ nat (declen a))"
    by (simp_all only: of_int_le_iff of_int_less_iff)
  then show "10 powi (declen a - 1) \<le> rat_of_int a" "rat_of_int a < 10 powi (declen a)"
    using b(1) by (simp_all add: power_int_def)
qed

lemma decimal_test:
  assumes "0 < p" "0 < q"
  shows "(q * 10 ^ nat k \<le> p * 10 ^ nat (- k)) = (rat_of_int q * 10 powi k \<le> rat_of_int p)"
proof (cases "0 \<le> k")
  case True
  then have "(q * 10 ^ nat k \<le> p * 10 ^ nat (- k)) = (q * 10 ^ nat k \<le> p)"
    by simp
  also have "\<dots> = (rat_of_int (q * 10 ^ nat k) \<le> rat_of_int p)"
    by (simp only: of_int_le_iff)
  also have "\<dots> = (rat_of_int q * 10 powi k \<le> rat_of_int p)"
    using True by (simp add: power_int_def)
  finally show ?thesis .
next
  case False
  then have "(q * 10 ^ nat k \<le> p * 10 ^ nat (- k)) = (q \<le> p * 10 ^ nat (- k))"
    by simp
  also have "\<dots> = (rat_of_int q \<le> rat_of_int (p * 10 ^ nat (- k)))"
    by (simp only: of_int_le_iff)
  also have "\<dots> = (rat_of_int q \<le> rat_of_int p * 10 ^ nat (- k))"
    by simp
  also have "\<dots> = (rat_of_int q * 10 powi k \<le> rat_of_int p)"
    using False by (simp add: power_int_def field_simps)
  finally show ?thesis .
qed

lemma decimal_exponent_bounds:
  assumes "x \<noteq> 0"
  shows "10 powi (decimal_exponent x) \<le> \<bar>x\<bar>" and "\<bar>x\<bar> < 10 powi (decimal_exponent x + 1)"
proof -
  obtain p q where pq: "quotient_of \<bar>x\<bar> = (p, q)"
    by (cases "quotient_of \<bar>x\<bar>")
  note f = quotient_of_abs_pos [OF assms pq]
  define k where "k = declen p - declen q"
  let ?P = "rat_of_int p" and ?Q = "rat_of_int q"
  have Q: "0 < ?Q" using f(2) by simp
  have x: "\<bar>x\<bar> = ?P / ?Q" by (rule f(3))
  have "decimal_exponent x = (if q * 10 ^ nat k \<le> p * 10 ^ nat (- k) then k else k - 1)"
    unfolding decimal_exponent_def pq k_def by (simp only: Let_def prod.case)
  then have e: "decimal_exponent x = (if ?Q * 10 powi k \<le> ?P then k else k - 1)"
    by (simp only: decimal_test [OF f(1,2)])
  have up: "?P < 10 powi (k + 1) * ?Q"
  proof -
    have "?P < 10 powi (declen p)" by (rule declen_bounds_rat(2) [OF f(1)])
    also have "declen p = (k + 1) + (declen q - 1)" by (simp add: k_def)
    also have "(10::rat) powi ((k + 1) + (declen q - 1)) = 10 powi (k + 1) * 10 powi (declen q - 1)"
      by (intro power_int_add) simp
    also have "\<dots> \<le> 10 powi (k + 1) * ?Q"
      using declen_bounds_rat(1) [OF f(2)] by (simp add: mult_left_mono)
    finally show ?thesis .
  qed
  have lo: "10 powi (k - 1) * ?Q < ?P"
  proof -
    have "10 powi (k - 1) * ?Q < 10 powi (k - 1) * 10 powi (declen q)"
      using declen_bounds_rat(2) [OF f(2)] by (simp add: mult_strict_left_mono)
    also have "\<dots> = 10 powi ((k - 1) + declen q)"
      by (intro power_int_add [symmetric]) simp
    also have "(k - 1) + declen q = declen p - 1" by (simp add: k_def)
    also have "10 powi (declen p - 1) \<le> ?P" by (rule declen_bounds_rat(1) [OF f(1)])
    finally show ?thesis .
  qed
  show "10 powi (decimal_exponent x) \<le> \<bar>x\<bar>"
  proof (cases "?Q * 10 powi k \<le> ?P")
    case True
    then have "10 powi k \<le> ?P / ?Q"
      using Q by (simp add: pos_le_divide_eq mult.commute)
    then show ?thesis using True by (simp add: e x)
  next
    case False
    have "10 powi (k - 1) \<le> ?P / ?Q"
      using lo Q by (simp add: pos_le_divide_eq)
    then show ?thesis using False by (simp add: e x)
  qed
  show "\<bar>x\<bar> < 10 powi (decimal_exponent x + 1)"
  proof (cases "?Q * 10 powi k \<le> ?P")
    case True
    have "?P / ?Q < 10 powi (k + 1)"
      using up Q by (simp add: pos_divide_less_eq)
    then show ?thesis using True by (simp add: e x)
  next
    case False
    then have "?P < 10 powi k * ?Q"
      by (simp add: mult.commute)
    then have "?P / ?Q < 10 powi k"
      using Q by (simp add: pos_divide_less_eq)
    then show ?thesis using False by (simp add: e x)
  qed
qed

end
